theory Spec2Isabelle
  imports Main
begin

section \<open>The idea-list parser of the ideation handler\<close>

text \<open>
  This theory embeds \<^verbatim>\<open>parse_ideas_response\<close> of
  \<^verbatim>\<open>src/lambda_ideation/app.py\<close>. A Python \<^verbatim>\<open>str\<close> is a sequence of code
  points; it is modelled as a \<^typ>\<open>string\<close> whose characters are the code points
  U+0000 to U+00FF. On that range \<open>isspace\<close> and \<open>lower_char\<close> below are Python's
  \<^verbatim>\<open>str.isspace\<close> and \<^verbatim>\<open>str.lower\<close>.
\<close>

subsection \<open>Python's string operations\<close>

text \<open>
  The characters \<^verbatim>\<open>str.strip()\<close> removes: U+0009 to U+000D, U+001C to U+001F,
  the space, U+0085 and U+00A0.
\<close>

definition whitespace :: "char list" where
  "whitespace = [CHR 0x09, CHR 0x0A, CHR 0x0B, CHR 0x0C, CHR 0x0D,
                 CHR 0x1C, CHR 0x1D, CHR 0x1E, CHR 0x1F, CHR 0x20, CHR 0x85, CHR 0xA0]"

definition isspace :: "char \<Rightarrow> bool" where
  "isspace c = (c \<in> set whitespace)"

definition lstrip :: "string \<Rightarrow> string" where
  "lstrip s = dropWhile isspace s"

definition rstrip :: "string \<Rightarrow> string" where
  "rstrip s = rev (dropWhile isspace (rev s))"

definition strip :: "string \<Rightarrow> string" where
  "strip s = rstrip (lstrip s)"

text \<open>
  \<^verbatim>\<open>s.split(sep)\<close> for a one-character separator, scanning from the left with the
  piece read so far (reversed); the result is never the empty list.
\<close>

fun split_from :: "char \<Rightarrow> string \<Rightarrow> string \<Rightarrow> string list" where
  "split_from sep piece [] = [rev piece]"
| "split_from sep piece (c # cs) =
     (if c = sep then rev piece # split_from sep [] cs
      else split_from sep (c # piece) cs)"

definition split :: "char \<Rightarrow> string \<Rightarrow> string list" where
  "split sep s = split_from sep [] s"

text \<open>\<^verbatim>\<open>s.split(sep, 1)\<close>: at most one cut, at the first separator.\<close>

definition split1 :: "char \<Rightarrow> string \<Rightarrow> string list" where
  "split1 sep s =
     (if sep \<in> set s
      then [takeWhile (\<lambda>c. c \<noteq> sep) s, tl (dropWhile (\<lambda>c. c \<noteq> sep) s)]
      else [s])"

definition startswith :: "string \<Rightarrow> string \<Rightarrow> bool" where
  "startswith s p = (take (length p) s = p)"

text \<open>
  \<^verbatim>\<open>str.lower\<close> on U+0000 to U+00FF: the letters A to Z and the letters U+00C0 to
  U+00DE, the multiplication sign U+00D7 apart, move up by 32.
\<close>

definition lower_char :: "char \<Rightarrow> char" where
  "lower_char c =
     (let n = (of_char c :: nat)
      in if (65 \<le> n \<and> n \<le> 90) \<or> (192 \<le> n \<and> n \<le> 222 \<and> n \<noteq> 215)
         then char_of (n + 32) else c)"

definition lower :: "string \<Rightarrow> string" where
  "lower s = map lower_char s"

text \<open>Indexing a list raises \<^verbatim>\<open>IndexError\<close> out of range.\<close>

datatype error = IndexError

definition index :: "'a list \<Rightarrow> nat \<Rightarrow> error + 'a" where
  "index xs i = (if i < length xs then Inr (xs ! i) else Inl IndexError)"

subsection \<open>Idea records and the parser's state\<close>

text \<open>The dictionary with the four keys the parser writes.\<close>

record idea =
  title :: string
  description :: string
  highlights :: "string list"
  duration :: string

text \<open>The two locals of the loop: \<^verbatim>\<open>ideas\<close> and \<^verbatim>\<open>current_idea\<close>.\<close>

record pstate =
  ideas :: "idea list"
  current_idea :: "idea option"

definition init :: pstate where
  "init = \<lparr>ideas = [], current_idea = None\<rparr>"

subsection \<open>The loop body\<close>

text \<open>
  \<^verbatim>\<open>line.startswith(('1.', '2.', '3.', '4.', '5.')) and ':' in line\<close>
\<close>

definition opens_block :: "string \<Rightarrow> bool" where
  "opens_block line =
     ((startswith line ''1.'' \<or> startswith line ''2.'' \<or> startswith line ''3.''
        \<or> startswith line ''4.'' \<or> startswith line ''5.'')
      \<and> CHR '':'' \<in> set line)"

text \<open>
  \<^verbatim>\<open>if current_idea and current_idea.get('title'): ideas.append(current_idea)\<close>,
  giving the list \<^verbatim>\<open>ideas\<close> afterwards. A dictionary with four keys is truthy.
\<close>

definition flush :: "pstate \<Rightarrow> idea list" where
  "flush st =
     (case current_idea st of
        None \<Rightarrow> ideas st
      | Some cur \<Rightarrow> if title cur \<noteq> [] then ideas st @ [cur] else ideas st)"

definition new_idea :: "string \<Rightarrow> idea" where
  "new_idea line =
     (let title_parts = split1 CHR '':'' line
      in \<lparr>title = (if length title_parts > 1 then strip (title_parts ! 1) else line),
          description = [], highlights = [], duration = []\<rparr>)"

text \<open>The labelled components, for a line that opens no block, on the idea in progress.\<close>

definition update_idea :: "idea \<Rightarrow> string \<Rightarrow> error + idea" where
  "update_idea cur line =
     (if startswith (lower line) ''description:'' then
        (case index (split1 CHR '':'' line) 1 of
           Inl e \<Rightarrow> Inl e
         | Inr t \<Rightarrow> Inr (cur\<lparr>description := strip t\<rparr>))
      else if startswith (lower line) ''highlight'' then
        (if CHR '':'' \<in> set line then
           (case index (split1 CHR '':'' line) 1 of
              Inl e \<Rightarrow> Inl e
            | Inr t \<Rightarrow> Inr (cur\<lparr>highlights := highlights cur @ [strip t]\<rparr>))
         else Inr (cur\<lparr>highlights := highlights cur @ [line]\<rparr>))
      else if startswith (lower line) ''duration:'' then
        (case index (split1 CHR '':'' line) 1 of
           Inl e \<Rightarrow> Inl e
         | Inr t \<Rightarrow> Inr (cur\<lparr>duration := strip t\<rparr>))
      else if description cur \<noteq> [] \<and> \<not> startswith line ''-'' then
        Inr (cur\<lparr>description := description cur @ '' '' @ line\<rparr>)
      else if startswith line ''-'' then
        Inr (cur\<lparr>highlights := highlights cur @ [strip (drop 1 line)]\<rparr>)
      else Inr cur)"

text \<open>One iteration of the loop, on a line as \<^verbatim>\<open>split\<close> gave it.\<close>

definition process_line :: "pstate \<Rightarrow> string \<Rightarrow> error + pstate" where
  "process_line st raw =
     (let line = strip raw
      in if line = [] then Inr st
         else if opens_block line then
           Inr \<lparr>ideas = flush st, current_idea = Some (new_idea line)\<rparr>
         else
           (case current_idea st of
              None \<Rightarrow> Inr st
            | Some cur \<Rightarrow>
                (case update_idea cur line of
                   Inl e \<Rightarrow> Inl e
                 | Inr cur' \<Rightarrow> Inr (st\<lparr>current_idea := Some cur'\<rparr>))))"

fun process_lines :: "pstate \<Rightarrow> string list \<Rightarrow> error + pstate" where
  "process_lines st [] = Inr st"
| "process_lines st (l # ls) =
     (case process_line st l of
        Inl e \<Rightarrow> Inl e
      | Inr st' \<Rightarrow> process_lines st' ls)"

subsection \<open>The function\<close>

definition fallback :: "string \<Rightarrow> idea" where
  "fallback response =
     \<lparr>title = ''Travel Recommendations'', description = strip response,
      highlights = [], duration = []\<rparr>"

text \<open>The body of the \<^verbatim>\<open>try\<close> block.\<close>

definition parse_body :: "string \<Rightarrow> error + idea list" where
  "parse_body response =
     (case process_lines init (split CHR 0x0A (strip response)) of
        Inl e \<Rightarrow> Inl e
      | Inr st \<Rightarrow> if flush st = [] then Inr [fallback response] else Inr (flush st))"

text \<open>\<^verbatim>\<open>str(e)\<close> of the exception.\<close>

fun error_str :: "error \<Rightarrow> string" where
  "error_str IndexError = ''list index out of range''"

text \<open>
  The \<^verbatim>\<open>except Exception\<close> handler: it logs the error and returns the fallback
  list. The logger is the only thing outside the call that the function touches; it is
  the list of the messages logged so far.
\<close>

definition handle :: "string \<Rightarrow> string list \<Rightarrow> error + idea list \<Rightarrow> idea list \<times> string list" where
  "handle response log r =
     (case r of
        Inr result \<Rightarrow> (result, log)
      | Inl e \<Rightarrow> ([fallback response],
                  log @ [''Error parsing ideas response: '' @ error_str e]))"

definition parse_ideas_response_logged :: "string \<Rightarrow> string list \<Rightarrow> idea list \<times> string list" where
  "parse_ideas_response_logged response log = handle response log (parse_body response)"

definition parse_ideas_response :: "string \<Rightarrow> idea list" where
  "parse_ideas_response response = fst (parse_ideas_response_logged response [])"

subsection \<open>Notions the statements use\<close>

text \<open>The eight lines of the worked example, joined by newlines.\<close>

definition example_input :: string where
  "example_input = ''1. Coastal Road Trip: Scenic drives'' @ [CHR 0x0A] @
            ''Description: Drive along the coast visiting small towns.'' @ [CHR 0x0A] @
            ''Highlight: Lighthouse at sunset'' @ [CHR 0x0A] @
            ''- Local seafood tasting'' @ [CHR 0x0A] @
            ''Duration: 5 days'' @ [CHR 0x0A] @
            ''2. Mountain Retreat: Peaceful cabins'' @ [CHR 0x0A] @
            ''Description: Stay in a secluded cabin.'' @ [CHR 0x0A] @
            ''Duration: 3 days''"

text \<open>
  The titles of the blocks that the lines open, in the order of the lines, those that
  are empty left out.
\<close>

definition opened_titles :: "string list \<Rightarrow> string list" where
  "opened_titles ls =
     filter (\<lambda>t. t \<noteq> []) (map (\<lambda>l. title (new_idea l)) (filter opens_block (map strip ls)))"

section \<open>No exception reaches the handler\<close>

text \<open>
  The only operation of the body that can raise is the index \<^verbatim>\<open>[1]\<close> after
  \<^verbatim>\<open>split(':', 1)\<close>. Lowering a character gives a colon only for the colon, so a
  line whose lowered text starts with a label ending in a colon contains one.
\<close>

lemma lower_char_colon: "lower_char c = CHR '':'' \<longleftrightarrow> c = CHR '':''"
proof -
  have a: "of_char (lower_char c) = (58::nat) \<longleftrightarrow> of_char c = (58::nat)"
    by (auto simp: lower_char_def Let_def)
  have c58: "(of_char (CHR '':'') :: nat) = 58" by simp
  have b: "d = CHR '':'' \<longleftrightarrow> of_char d = (58::nat)" for d
  proof
    assume "d = CHR '':''" then show "of_char d = (58::nat)" by simp
  next
    assume "of_char d = (58::nat)"
    then have "(of_char d :: nat) = of_char (CHR '':'')" using c58 by simp
    then show "d = CHR '':''" by (simp only: of_char_eq_iff)
  qed
  show ?thesis using a b by simp
qed

lemma startswith_lower_colon:
  assumes "startswith (lower line) p" and "CHR '':'' \<in> set p"
  shows "CHR '':'' \<in> set line"
proof -
  from assms have "CHR '':'' \<in> set (take (length p) (lower line))"
    by (simp add: startswith_def)
  then have "CHR '':'' \<in> set (lower line)" by (rule in_set_takeD)
  then obtain c where "c \<in> set line" "lower_char c = CHR '':''"
    by (auto simp: lower_def)
  then show ?thesis by (simp add: lower_char_colon)
qed

lemma index_split1:
  "CHR '':'' \<in> set line \<Longrightarrow>
   index (split1 CHR '':'' line) (Suc 0) = Inr (tl (dropWhile (\<lambda>c. c \<noteq> CHR '':'') line))"
  by (simp add: index_def split1_def)

lemma update_idea_ok: "\<exists>cur'. update_idea cur line = Inr cur'"
proof -
  have d: "startswith (lower line) ''description:'' \<Longrightarrow> CHR '':'' \<in> set line"
    using startswith_lower_colon [of line "''description:''"] by simp
  have u: "startswith (lower line) ''duration:'' \<Longrightarrow> CHR '':'' \<in> set line"
    using startswith_lower_colon [of line "''duration:''"] by simp
  show ?thesis
    unfolding update_idea_def using d u by (auto simp: index_split1)
qed

lemma process_line_ok: "\<exists>st'. process_line st raw = Inr st'"
proof (cases "current_idea st")
  case None
  then show ?thesis by (simp add: process_line_def Let_def)
next
  case (Some cur)
  obtain cur' where "update_idea cur (strip raw) = Inr cur'"
    using update_idea_ok by blast
  with Some show ?thesis by (simp add: process_line_def Let_def)
qed

lemma process_lines_ok: "\<exists>st'. process_lines st ls = Inr st'"
proof (induction ls arbitrary: st)
  case Nil
  show ?case by simp
next
  case (Cons l ls)
  obtain st1 where "process_line st l = Inr st1" using process_line_ok by blast
  with Cons show ?case by simp
qed

lemma parse_body_ok: "\<exists>result. parse_body response = Inr result \<and> result \<noteq> []"
proof -
  obtain st where "process_lines init (split CHR 0x0A (strip response)) = Inr st"
    using process_lines_ok by blast
  then show ?thesis by (simp add: parse_body_def)
qed

lemma parse_ideas_response_body:
  "parse_body response = Inr result \<Longrightarrow> parse_ideas_response response = result"
  by (simp add: parse_ideas_response_def parse_ideas_response_logged_def handle_def)

section \<open>Totality and purity\<close>

text \<open>
  C1. For every string the function returns a list, and the list is never empty: the
  body of the \<^verbatim>\<open>try\<close> block returns normally, and the handler turns any
  exception into the one-element list holding the fallback record, whose description is
  the trimmed input.
\<close>

theorem parse_ideas_response_total:
  "parse_ideas_response response \<noteq> []
   \<and> (\<exists>result. parse_body response = Inr result)
   \<and> fst (handle response log (Inl e)) = [fallback response]
   \<and> description (fallback response) = strip response"
proof -
  obtain result where r: "parse_body response = Inr result" "result \<noteq> []"
    using parse_body_ok by blast
  then have "parse_ideas_response response = result"
    by (simp add: parse_ideas_response_body)
  with r show ?thesis by (simp add: handle_def fallback_def)
qed

text \<open>
  C9. The result depends on the input only and the logger is left as it was: whatever
  has been logged before the call, the call returns the same list and logs nothing, so
  a second call on the same input returns the same list again.
\<close>

theorem parse_ideas_response_pure:
  "parse_ideas_response_logged response log = (parse_ideas_response response, log)
   \<and> parse_ideas_response_logged response
         (snd (parse_ideas_response_logged response log))
       = parse_ideas_response_logged response log"
proof -
  obtain result where r: "parse_body response = Inr result"
    using parse_body_ok by blast
  have "parse_ideas_response_logged response l = (parse_ideas_response response, l)" for l
    using r by (simp add: parse_ideas_response_def parse_ideas_response_logged_def handle_def)
  then show ?thesis by simp
qed

section \<open>The fallback record\<close>

lemma process_lines_no_block:
  assumes "current_idea st = None"
    and "\<forall>l \<in> set ls. \<not> opens_block (strip l)"
  shows "process_lines st ls = Inr st"
  using assms
proof (induction ls)
  case Nil
  show ?case by simp
next
  case (Cons l ls)
  then have "process_line st l = Inr st"
    by (simp add: process_line_def Let_def)
  with Cons show ?case by simp
qed

text \<open>
  C2. When no line of the trimmed input, once trimmed itself, both starts with one of
  the markers and contains a colon, the result is exactly the fallback record: the
  fixed title, the trimmed input as description, no highlights and no duration. For the
  empty input the description is empty.
\<close>

theorem no_block_fallback:
  "((\<forall>l \<in> set (split CHR 0x0A (strip response)). \<not> opens_block (strip l)) \<longrightarrow>
      parse_ideas_response response =
        [\<lparr>title = ''Travel Recommendations'', description = strip response,
          highlights = [], duration = []\<rparr>])
   \<and> parse_ideas_response [] =
        [\<lparr>title = ''Travel Recommendations'', description = [],
          highlights = [], duration = []\<rparr>]"
proof -
  have a: "parse_ideas_response r = [fallback r]"
    if "\<forall>l \<in> set (split CHR 0x0A (strip r)). \<not> opens_block (strip l)" for r
  proof -
    have "process_lines init (split CHR 0x0A (strip r)) = Inr init"
      using that by (intro process_lines_no_block) (simp_all add: init_def)
    then have "parse_body r = Inr [fallback r]"
      by (simp add: parse_body_def flush_def init_def)
    then show ?thesis by (rule parse_ideas_response_body)
  qed
  have s: "strip [] = []"
    by (simp add: strip_def lstrip_def rstrip_def)
  have "\<forall>l \<in> set (split CHR 0x0A (strip [])). \<not> opens_block (strip l)"
    by (simp add: s split_def opens_block_def)
  then have "parse_ideas_response [] = [fallback []]" by (rule a)
  with a s show ?thesis by (simp add: fallback_def)
qed

theorem no_block_fallback_witness:
  "filter opens_block
     (map strip (split CHR 0x0A (strip ''Visit Rome. 1. Explore the old town''))) = []
   \<and> parse_ideas_response ''Visit Rome. 1. Explore the old town'' =
        [\<lparr>title = ''Travel Recommendations'',
          description = ''Visit Rome. 1. Explore the old town'',
          highlights = [], duration = []\<rparr>]"
proof -
  have h: "\<forall>l \<in> set (split CHR 0x0A (strip ''Visit Rome. 1. Explore the old town'')).
       \<not> opens_block (strip l)"
    by code_simp
  have s: "strip ''Visit Rome. 1. Explore the old town'' = ''Visit Rome. 1. Explore the old town''"
    by code_simp
  have e: "filter opens_block
     (map strip (split CHR 0x0A (strip ''Visit Rome. 1. Explore the old town''))) = []"
    by code_simp
  show ?thesis
    using h e no_block_fallback [of "''Visit Rome. 1. Explore the old town''"] by (simp add: s)
qed

section \<open>Opening a block\<close>

lemma new_idea_colon:
  "CHR '':'' \<in> set line \<Longrightarrow>
   new_idea line =
     \<lparr>title = strip (tl (dropWhile (\<lambda>c. c \<noteq> CHR '':'') line)),
      description = [], highlights = [], duration = []\<rparr>"
  by (simp add: new_idea_def split1_def)

lemma opens_block_nonempty: "opens_block line \<Longrightarrow> line \<noteq> []"
  by (auto simp: opens_block_def)

text \<open>
  The line \<^verbatim>\<open>2. Trip:\<close> opens a block and has no text after its colon:
  \<^verbatim>\<open>split(':', 1)\<close> still gives two parts, so the title is the empty second part
  and not the line.
\<close>

theorem block_title_counterexample:
  "opens_block ''2. Trip:''
   \<and> split1 CHR '':'' ''2. Trip:'' = [''2. Trip'', []]
   \<and> title (new_idea ''2. Trip:'') = []
   \<and> title (new_idea ''2. Trip:'') \<noteq> ''2. Trip:''"
  by code_simp

text \<open>
  C3, amended. For every line that opens a block, the iteration flushes the idea in
  progress and starts a new idea whose title is the text after the first colon of the
  trimmed line, trimmed, in every case; when nothing but whitespace follows the colon
  the title is the empty string.
\<close>

theorem block_title_after_colon:
  assumes "opens_block (strip raw)"
  shows "process_line st raw =
           Inr \<lparr>ideas = flush st,
                current_idea = Some
                  \<lparr>title = strip (tl (dropWhile (\<lambda>c. c \<noteq> CHR '':'') (strip raw))),
                   description = [], highlights = [], duration = []\<rparr>\<rparr>"
proof -
  from assms have "CHR '':'' \<in> set (strip raw)" by (simp add: opens_block_def)
  then have "new_idea (strip raw) =
      \<lparr>title = strip (tl (dropWhile (\<lambda>c. c \<noteq> CHR '':'') (strip raw))),
       description = [], highlights = [], duration = []\<rparr>"
    by (rule new_idea_colon)
  with assms opens_block_nonempty [OF assms] show ?thesis
    by (simp add: process_line_def Let_def)
qed

theorem block_title_after_colon_witness:
  "opens_block (strip ''  2. Trip: '')
   \<and> process_line init ''  2. Trip: '' =
         Inr \<lparr>ideas = [],
              current_idea = Some
                \<lparr>title = [], description = [], highlights = [], duration = []\<rparr>\<rparr>"
proof -
  have h: "opens_block (strip ''  2. Trip: '')" by code_simp
  have t: "strip (tl (dropWhile (\<lambda>c. c \<noteq> CHR '':'') (strip ''  2. Trip: ''))) = []"
    by code_simp
  have f: "flush init = []" by (simp add: flush_def init_def)
  show ?thesis
    using h block_title_after_colon [OF h, of init] by (simp add: t f)
qed

lemma startswith_append: "startswith s p \<longleftrightarrow> (\<exists>rest. s = p @ rest)"
proof
  assume "startswith s p"
  then have "s = p @ drop (length p) s"
    by (metis append_take_drop_id startswith_def)
  then show "\<exists>rest. s = p @ rest" ..
next
  assume "\<exists>rest. s = p @ rest"
  then show "startswith s p" by (auto simp: startswith_def)
qed

lemma update_idea_title: "update_idea cur line = Inr cur' \<Longrightarrow> title cur' = title cur"
  by (auto simp: update_idea_def split: if_splits sum.splits)

lemma process_line_other:
  assumes "\<not> opens_block (strip raw)"
  shows "\<exists>st'. process_line st raw = Inr st' \<and> ideas st' = ideas st
           \<and> map_option title (current_idea st') = map_option title (current_idea st)"
proof (cases "current_idea st")
  case None
  with assms show ?thesis by (simp add: process_line_def Let_def)
next
  case (Some cur)
  obtain cur' where u: "update_idea cur (strip raw) = Inr cur'"
    using update_idea_ok by blast
  then have "title cur' = title cur" by (rule update_idea_title)
  with Some u assms show ?thesis by (simp add: process_line_def Let_def)
qed

text \<open>
  C4. A trimmed line opens a block exactly when it starts with one of the five literal
  markers and contains a colon. When it does, the iteration flushes the idea in progress
  and starts a new one; when it does not, the list of finished ideas and the title of
  the idea in progress stay as they were. The line \<^verbatim>\<open>1. Explore the old town\<close>,
  with a marker and no colon, opens no block.
\<close>

theorem opens_block_iff:
  "(opens_block line \<longleftrightarrow>
      (\<exists>rest. line = ''1.'' @ rest \<or> line = ''2.'' @ rest \<or> line = ''3.'' @ rest
            \<or> line = ''4.'' @ rest \<or> line = ''5.'' @ rest)
      \<and> CHR '':'' \<in> set line)
   \<and> (opens_block (strip raw) \<longrightarrow>
        process_line st raw =
          Inr \<lparr>ideas = flush st, current_idea = Some (new_idea (strip raw))\<rparr>)
   \<and> (\<not> opens_block (strip raw) \<longrightarrow>
        (\<exists>st'. process_line st raw = Inr st' \<and> ideas st' = ideas st
           \<and> map_option title (current_idea st') = map_option title (current_idea st)))
   \<and> \<not> opens_block ''1. Explore the old town''"
proof -
  have a: "opens_block line \<longleftrightarrow>
      (\<exists>rest. line = ''1.'' @ rest \<or> line = ''2.'' @ rest \<or> line = ''3.'' @ rest
            \<or> line = ''4.'' @ rest \<or> line = ''5.'' @ rest)
      \<and> CHR '':'' \<in> set line"
    unfolding opens_block_def startswith_append by blast
  have b: "process_line st raw =
          Inr \<lparr>ideas = flush st, current_idea = Some (new_idea (strip raw))\<rparr>"
    if "opens_block (strip raw)"
    using that opens_block_nonempty [OF that] by (simp add: process_line_def Let_def)
  have c: "\<not> opens_block ''1. Explore the old town''"
    by (simp add: opens_block_def)
  from a b c process_line_other [of raw st] show ?thesis by blast
qed

theorem opens_block_iff_witness:
  "opens_block (strip ''1. Rome: the old town'')
   \<and> process_line init ''1. Rome: the old town'' =
        Inr \<lparr>ideas = [], current_idea = Some
              \<lparr>title = ''the old town'', description = [], highlights = [], duration = []\<rparr>\<rparr>
   \<and> \<not> opens_block (strip ''1. Explore the old town'')
   \<and> (\<exists>st'. process_line init ''1. Explore the old town'' = Inr st'
          \<and> ideas st' = ideas init
          \<and> map_option title (current_idea st') = map_option title (current_idea init))"
proof -
  have h1: "opens_block (strip ''1. Rome: the old town'')" by code_simp
  have h2: "\<not> opens_block (strip ''1. Explore the old town'')" by code_simp
  have n: "new_idea (strip ''1. Rome: the old town'') =
     \<lparr>title = ''the old town'', description = [], highlights = [], duration = []\<rparr>"
    by code_simp
  have f: "flush init = []" by (simp add: flush_def init_def)
  from opens_block_iff [of "''1. Explore the old town''" "''1. Explore the old town''" init]
  have p: "\<exists>st'. process_line init ''1. Explore the old town'' = Inr st'
          \<and> ideas st' = ideas init
          \<and> map_option title (current_idea st') = map_option title (current_idea init)"
    using h2 by blast
  from opens_block_iff [of "''1. Rome: the old town''" "''1. Rome: the old town''" init]
  have "process_line init ''1. Rome: the old town'' =
          Inr \<lparr>ideas = flush init, current_idea = Some (new_idea (strip ''1. Rome: the old town''))\<rparr>"
    using h1 by blast
  with h1 h2 p show ?thesis by (simp add: n f)
qed

section \<open>Lines inside a block\<close>

lemma lower_char_digit:
  "c \<in> set ''12345'' \<Longrightarrow> lower_char c = c"
  by (auto simp: lower_char_def)

lemma startswith_hd: "startswith s (c # p) \<Longrightarrow> s \<noteq> [] \<and> hd s = c"
  by (cases s) (auto simp: startswith_def)

lemma label_no_block:
  assumes "startswith (lower line) (c # p)" and "c \<notin> set ''12345''"
  shows "\<not> opens_block line"
proof
  assume o: "opens_block line"
  from assms(1) have l: "lower line \<noteq> []" "hd (lower line) = c"
    using startswith_hd by blast+
  then have ne: "line \<noteq> []" by (auto simp: lower_def)
  with l have c: "lower_char (hd line) = c" by (simp add: lower_def hd_map)
  from o have "hd line \<in> set ''12345''"
    by (auto simp: opens_block_def dest: startswith_hd)
  then have "lower_char (hd line) = hd line" "hd line \<in> set ''12345''"
    by (simp_all only: lower_char_digit)
  with c assms(2) show False by simp
qed

text \<open>
  C7. While a block is open, a line whose lowered text starts with
  \<^verbatim>\<open>description:\<close> sets the description to the trimmed text after the first
  colon, whatever the description was before (text of an earlier description line or of
  continuation lines included); nothing else of the state changes.
\<close>

theorem description_replaces:
  assumes "current_idea st = Some cur"
    and "startswith (lower (strip raw)) ''description:''"
  shows "process_line st raw =
           Inr (st\<lparr>current_idea := Some
                  (cur\<lparr>description :=
                         strip (tl (dropWhile (\<lambda>c. c \<noteq> CHR '':'') (strip raw)))\<rparr>)\<rparr>)"
proof -
  have nb: "\<not> opens_block (strip raw)"
    using assms(2) by (rule label_no_block) simp
  have ne: "strip raw \<noteq> []"
    using assms(2) by (auto simp: startswith_def lower_def)
  have col: "CHR '':'' \<in> set (strip raw)"
    using startswith_lower_colon [OF assms(2)] by simp
  have "update_idea cur (strip raw) =
          Inr (cur\<lparr>description :=
                    strip (tl (dropWhile (\<lambda>c. c \<noteq> CHR '':'') (strip raw)))\<rparr>)"
    using assms(2) col by (simp add: update_idea_def index_split1)
  with nb ne assms(1) show ?thesis by (simp add: process_line_def Let_def)
qed

theorem description_replaces_witness:
  "process_line
     \<lparr>ideas = [], current_idea = Some \<lparr>title = ''Rome'', description = ''Old town more'',
                                      highlights = [], duration = []\<rparr>\<rparr>
     ''  DESCRIPTION:  New text '' =
   Inr \<lparr>ideas = [], current_idea = Some \<lparr>title = ''Rome'', description = ''New text'',
                                          highlights = [], duration = []\<rparr>\<rparr>"
proof -
  have h: "startswith (lower (strip ''  DESCRIPTION:  New text '')) ''description:''"
    by code_simp
  have t: "strip (tl (dropWhile (\<lambda>c. c \<noteq> CHR '':'') (strip ''  DESCRIPTION:  New text '')))
             = ''New text''"
    by code_simp
  show ?thesis
    using description_replaces [OF _ h,
        of "\<lparr>ideas = [], current_idea = Some \<lparr>title = ''Rome'', description = ''Old town more'',
                                      highlights = [], duration = []\<rparr>\<rparr>"
           "\<lparr>title = ''Rome'', description = ''Old town more'', highlights = [], duration = []\<rparr>"]
    by (simp add: t)
qed

text \<open>
  C8. While a block is open and its description is empty, a non-empty line that opens
  no block, carries none of the three labels and does not start with a dash leaves the
  idea in progress and the list of finished ideas as they were.
\<close>

theorem unlabelled_line_dropped:
  assumes "current_idea st = Some cur" and "description cur = []"
    and "strip raw \<noteq> []" and "\<not> opens_block (strip raw)"
    and "\<not> startswith (lower (strip raw)) ''description:''"
    and "\<not> startswith (lower (strip raw)) ''highlight''"
    and "\<not> startswith (lower (strip raw)) ''duration:''"
    and "\<not> startswith (strip raw) ''-''"
  shows "process_line st raw = Inr st"
proof -
  from assms have "update_idea cur (strip raw) = Inr cur"
    by (simp add: update_idea_def)
  with assms show ?thesis by (simp add: process_line_def Let_def)
qed

theorem unlabelled_line_dropped_witness:
  "process_line
     \<lparr>ideas = [], current_idea = Some \<lparr>title = ''Rome'', description = [],
                                      highlights = [], duration = []\<rparr>\<rparr>
     ''Some random note'' =
   Inr \<lparr>ideas = [], current_idea = Some \<lparr>title = ''Rome'', description = [],
                                          highlights = [], duration = []\<rparr>\<rparr>"
proof -
  have s: "strip ''Some random note'' = ''Some random note''" by code_simp
  have h: "\<not> opens_block ''Some random note''"
    "\<not> startswith (lower ''Some random note'') ''description:''"
    "\<not> startswith (lower ''Some random note'') ''highlight''"
    "\<not> startswith (lower ''Some random note'') ''duration:''"
    "\<not> startswith ''Some random note'' ''-''"
    by code_simp+
  show ?thesis
    using h unlabelled_line_dropped
      [of "\<lparr>ideas = [], current_idea = Some \<lparr>title = ''Rome'', description = [],
                                      highlights = [], duration = []\<rparr>\<rparr>"
          "\<lparr>title = ''Rome'', description = [], highlights = [], duration = []\<rparr>"
          "''Some random note''"]
    by (simp add: s)
qed

section \<open>The records returned\<close>

lemma opened_titles_Nil: "opened_titles [] = []"
  by (simp add: opened_titles_def)

lemma opened_titles_Cons:
  "opened_titles (l # ls) =
     (if opens_block (strip l) \<and> title (new_idea (strip l)) \<noteq> []
      then [title (new_idea (strip l))] else []) @ opened_titles ls"
  by (simp add: opened_titles_def)

lemma process_line_titles:
  assumes "process_line st raw = Inr st'"
  shows "map title (flush st') = map title (flush st) @ opened_titles [raw]"
proof (cases "opens_block (strip raw)")
  case True
  with assms opens_block_nonempty [OF True]
  have "st' = \<lparr>ideas = flush st, current_idea = Some (new_idea (strip raw))\<rparr>"
    by (simp add: process_line_def Let_def)
  with True show ?thesis by (simp add: opened_titles_def flush_def)
next
  case False
  obtain st1 where "process_line st raw = Inr st1" "ideas st1 = ideas st"
      "map_option title (current_idea st1) = map_option title (current_idea st)"
    using process_line_other [OF False] by blast
  with assms have "ideas st' = ideas st"
      "map_option title (current_idea st') = map_option title (current_idea st)"
    by simp_all
  then have "map title (flush st') = map title (flush st)"
    by (cases "current_idea st'"; cases "current_idea st") (auto simp: flush_def)
  with False show ?thesis by (simp add: opened_titles_def)
qed

lemma process_lines_titles:
  "process_lines st ls = Inr st' \<Longrightarrow>
   map title (flush st') = map title (flush st) @ opened_titles ls"
proof (induction ls arbitrary: st)
  case Nil
  then show ?case by (simp add: opened_titles_def)
next
  case (Cons l ls)
  obtain st1 where s: "process_line st l = Inr st1" using process_line_ok by blast
  with Cons.prems have "process_lines st1 ls = Inr st'" by simp
  then have "map title (flush st') = map title (flush st1) @ opened_titles ls"
    by (rule Cons.IH)
  moreover have "map title (flush st1) = map title (flush st) @ opened_titles [l]"
    using s by (rule process_line_titles)
  ultimately show ?case by (simp add: opened_titles_Cons opened_titles_Nil)
qed

text \<open>
  C5. No record of the result has an empty title, and the titles of the result are the
  non-empty titles of the opening lines, in the order of those lines in the text (the
  fixed fallback title when there is none): an idea is flushed only with a non-empty
  title, and flushing appends.
\<close>

theorem titles_nonempty_in_order:
  "[] \<notin> set (map title (parse_ideas_response response))
   \<and> map title (parse_ideas_response response) =
       (if opened_titles (split CHR 0x0A (strip response)) = []
        then [''Travel Recommendations'']
        else opened_titles (split CHR 0x0A (strip response)))"
proof -
  obtain st where p: "process_lines init (split CHR 0x0A (strip response)) = Inr st"
    using process_lines_ok by blast
  then have t: "map title (flush st) = opened_titles (split CHR 0x0A (strip response))"
    using process_lines_titles [OF p] by (simp add: flush_def init_def)
  have "parse_body response = Inr (if flush st = [] then [fallback response] else flush st)"
    using p by (simp add: parse_body_def)
  then have r: "parse_ideas_response response =
      (if flush st = [] then [fallback response] else flush st)"
    by (rule parse_ideas_response_body)
  have e: "flush st = [] \<longleftrightarrow> opened_titles (split CHR 0x0A (strip response)) = []"
    using t by (metis map_is_Nil_conv)
  have m: "map title (parse_ideas_response response) =
       (if opened_titles (split CHR 0x0A (strip response)) = []
        then [''Travel Recommendations'']
        else opened_titles (split CHR 0x0A (strip response)))"
    using r t e by (simp add: fallback_def)
  have "[] \<notin> set (opened_titles (split CHR 0x0A (strip response)))"
    by (simp add: opened_titles_def)
  with m show ?thesis by simp
qed

text \<open>
  C6. On the eight-line example the parser returns the two records of the specification.
\<close>

theorem section8_example:
  "parse_ideas_response example_input =
   [\<lparr>title = ''Scenic drives'', description = ''Drive along the coast visiting small towns.'',
      highlights = [''Lighthouse at sunset'', ''Local seafood tasting''], duration = ''5 days''\<rparr>,
    \<lparr>title = ''Peaceful cabins'', description = ''Stay in a secluded cabin.'',
      highlights = [], duration = ''3 days''\<rparr>]"
  by code_simp

section \<open>A block whose title is empty\<close>

lemma process_lines_append:
  "process_lines st (xs @ ys) =
     (case process_lines st xs of Inl e \<Rightarrow> Inl e | Inr st' \<Rightarrow> process_lines st' ys)"
  by (induction xs arbitrary: st) (auto split: sum.splits)

lemma process_line_untitled:
  assumes "ideas st1 = ideas st2" and "current_idea st2 = None"
    and "current_idea st1 = Some c" and "title c = []"
  shows "\<exists>st1' st2'. process_line st1 raw = Inr st1' \<and> process_line st2 raw = Inr st2'
           \<and> (st1' = st2'
               \<or> (ideas st1' = ideas st2' \<and> current_idea st2' = None
                  \<and> (\<exists>c'. current_idea st1' = Some c' \<and> title c' = [])))"
proof (cases "strip raw = []")
  case True
  with assms show ?thesis by (simp add: process_line_def)
next
  case ne: False
  show ?thesis
  proof (cases "opens_block (strip raw)")
    case True
    from assms have "flush st1 = flush st2" by (simp add: flush_def)
    with True ne show ?thesis by (simp add: process_line_def Let_def)
  next
    case False
    obtain c' where u: "update_idea c (strip raw) = Inr c'"
      using update_idea_ok by blast
    then have "title c' = title c" by (rule update_idea_title)
    with u False ne assms show ?thesis by (simp add: process_line_def Let_def)
  qed
qed

lemma process_lines_untitled:
  assumes "ideas st1 = ideas st2" and "current_idea st2 = None"
    and "current_idea st1 = Some c" and "title c = []"
  shows "\<exists>st1' st2'. process_lines st1 ls = Inr st1' \<and> process_lines st2 ls = Inr st2'
           \<and> flush st1' = flush st2'"
  using assms
proof (induction ls arbitrary: st1 st2 c)
  case Nil
  then show ?case by (simp add: flush_def)
next
  case (Cons l ls)
  obtain a b where s: "process_line st1 l = Inr a" "process_line st2 l = Inr b"
      and d: "a = b \<or> (ideas a = ideas b \<and> current_idea b = None
                  \<and> (\<exists>c'. current_idea a = Some c' \<and> title c' = []))"
    using process_line_untitled [OF Cons.prems] by blast
  from d show ?case
  proof
    assume "a = b"
    moreover obtain z where "process_lines b ls = Inr z" using process_lines_ok by blast
    ultimately show ?thesis using s by simp
  next
    assume "ideas a = ideas b \<and> current_idea b = None
                  \<and> (\<exists>c'. current_idea a = Some c' \<and> title c' = [])"
    then obtain c' where "ideas a = ideas b" "current_idea b = None"
        "current_idea a = Some c'" "title c' = []" by blast
    then have "\<exists>st1' st2'. process_lines a ls = Inr st1' \<and> process_lines b ls = Inr st2'
           \<and> flush st1' = flush st2'"
      by (rule Cons.IH)
    with s show ?thesis by simp
  qed
qed

lemma untitled_block_flush:
  assumes "opens_block (strip opener)"
    and "strip (tl (dropWhile (\<lambda>c. c \<noteq> CHR '':'') (strip opener))) = []"
    and "\<forall>l \<in> set body. \<not> opens_block (strip l)"
  shows "process_line st opener =
           Inr \<lparr>ideas = flush st,
                current_idea = Some \<lparr>title = [], description = [],
                                     highlights = [], duration = []\<rparr>\<rparr>
         \<and> (\<exists>st1 st2. process_lines st (opener # body @ rest) = Inr st1
               \<and> process_lines \<lparr>ideas = flush st, current_idea = None\<rparr> rest = Inr st2
               \<and> flush st1 = flush st2)"
proof -
  let ?a = "\<lparr>ideas = flush st,
             current_idea = Some \<lparr>title = [], description = [],
                                  highlights = [], duration = []\<rparr>\<rparr>"
  let ?b = "\<lparr>ideas = flush st, current_idea = None\<rparr>"
  have col: "CHR '':'' \<in> set (strip opener)"
    using assms(1) by (simp add: opens_block_def)
  have o: "process_line st opener = Inr ?a"
    using assms(1,2) opens_block_nonempty [OF assms(1)] new_idea_colon [OF col]
    by (simp add: process_line_def Let_def)
  obtain st1 st2 where r: "process_lines ?a (body @ rest) = Inr st1"
      "process_lines ?b (body @ rest) = Inr st2" "flush st1 = flush st2"
    using process_lines_untitled [of ?a ?b _ "body @ rest"] by auto
  have "process_lines ?b body = Inr ?b"
    using assms(3) by (intro process_lines_no_block) simp_all
  then have "process_lines ?b (body @ rest) = process_lines ?b rest"
    by (simp add: process_lines_append)
  with r o show ?thesis by simp
qed

text \<open>
  The three lines \<^verbatim>\<open>2. Trip:\<close>, \<^verbatim>\<open>Description: lost\<close> and
  \<^verbatim>\<open>- gone\<close> form one block with the empty title. No record is parsed, so the
  fallback record is returned, and its description is the whole input: the lines of the
  block do appear in the result.
\<close>

theorem untitled_block_counterexample:
  "opens_block ''2. Trip:''
   \<and> title (new_idea ''2. Trip:'') = []
   \<and> parse_ideas_response
         (''2. Trip:'' @ [CHR 0x0A] @ ''Description: lost'' @ [CHR 0x0A] @ ''- gone'') =
       [\<lparr>title = ''Travel Recommendations'',
         description =
           ''2. Trip:'' @ [CHR 0x0A] @ ''Description: lost'' @ [CHR 0x0A] @ ''- gone'',
         highlights = [], duration = []\<rparr>]"
  by code_simp

text \<open>
  C10, amended. When only whitespace follows the first colon of an opening line, the
  block it opens has the empty title and is never appended as a record, neither at the
  next opening line nor at the end: the records parsed are those that the lines before
  the block and the lines after it give, the idea in progress before the block being
  flushed at the block's opening line, and no line of the block contributes to any of
  them. The function returns these records when there is one; when there is none it
  returns the fallback record, whose description is the whole trimmed input.
\<close>

theorem untitled_block_discarded:
  assumes "split CHR 0x0A (strip response) = pre @ opener # body @ rest"
    and "opens_block (strip opener)"
    and "strip (tl (dropWhile (\<lambda>c. c \<noteq> CHR '':'') (strip opener))) = []"
    and "\<forall>l \<in> set body. \<not> opens_block (strip l)"
  shows "\<exists>st0 st2.
           process_lines init pre = Inr st0
         \<and> process_line st0 opener =
             Inr \<lparr>ideas = flush st0,
                  current_idea = Some \<lparr>title = [], description = [],
                                       highlights = [], duration = []\<rparr>\<rparr>
         \<and> process_lines \<lparr>ideas = flush st0, current_idea = None\<rparr> rest = Inr st2
         \<and> parse_ideas_response response =
             (if flush st2 = []
              then [\<lparr>title = ''Travel Recommendations'', description = strip response,
                     highlights = [], duration = []\<rparr>]
              else flush st2)"
proof -
  obtain st0 where p: "process_lines init pre = Inr st0"
    using process_lines_ok by blast
  from untitled_block_flush [OF assms(2,3,4), of st0 rest]
  obtain st1 st2 where
      o: "process_line st0 opener =
           Inr \<lparr>ideas = flush st0,
                current_idea = Some \<lparr>title = [], description = [],
                                     highlights = [], duration = []\<rparr>\<rparr>"
      and r: "process_lines st0 (opener # body @ rest) = Inr st1"
        "process_lines \<lparr>ideas = flush st0, current_idea = None\<rparr> rest = Inr st2"
        "flush st1 = flush st2"
    by blast
  have "process_lines init (split CHR 0x0A (strip response)) = Inr st1"
    using p r(1) by (simp only: assms(1) process_lines_append sum.case)
  then have "parse_body response =
      Inr (if flush st1 = [] then [fallback response] else flush st1)"
    by (simp add: parse_body_def)
  then have "parse_ideas_response response =
      (if flush st1 = [] then [fallback response] else flush st1)"
    by (rule parse_ideas_response_body)
  with p o r show ?thesis by (auto simp: fallback_def)
qed

theorem untitled_block_discarded_witness:
  "parse_ideas_response
     (''1. Rome: Old town'' @ [CHR 0x0A] @ ''2. Trip:'' @ [CHR 0x0A] @
      ''Description: lost'' @ [CHR 0x0A] @ ''- gone'' @ [CHR 0x0A] @ ''3. Oslo: Fjords'') =
   [\<lparr>title = ''Old town'', description = [], highlights = [], duration = []\<rparr>,
    \<lparr>title = ''Fjords'', description = [], highlights = [], duration = []\<rparr>]"
proof -
  let ?r = "''1. Rome: Old town'' @ [CHR 0x0A] @ ''2. Trip:'' @ [CHR 0x0A] @
      ''Description: lost'' @ [CHR 0x0A] @ ''- gone'' @ [CHR 0x0A] @ ''3. Oslo: Fjords''"
  let ?rome = "\<lparr>title = ''Old town'', description = [], highlights = [], duration = []\<rparr>"
  let ?oslo = "\<lparr>title = ''Fjords'', description = [], highlights = [], duration = []\<rparr>"
  have sp: "split CHR 0x0A (strip ?r) =
      [''1. Rome: Old town''] @ ''2. Trip:'' # [''Description: lost'', ''- gone'']
        @ [''3. Oslo: Fjords'']"
    by code_simp
  have h1: "opens_block (strip ''2. Trip:'')" by code_simp
  have h2: "strip (tl (dropWhile (\<lambda>c. c \<noteq> CHR '':'') (strip ''2. Trip:''))) = []"
    by code_simp
  have h3: "\<forall>l \<in> set [''Description: lost'', ''- gone'']. \<not> opens_block (strip l)"
    by code_simp
  from untitled_block_discarded [OF sp h1 h2 h3]
  obtain st0 st2 where
      a: "process_lines init [''1. Rome: Old town''] = Inr st0"
      and b: "process_lines \<lparr>ideas = flush st0, current_idea = None\<rparr> [''3. Oslo: Fjords'']
                = Inr st2"
      and c: "parse_ideas_response ?r =
             (if flush st2 = []
              then [\<lparr>title = ''Travel Recommendations'', description = strip ?r,
                     highlights = [], duration = []\<rparr>]
              else flush st2)"
    by blast
  have "process_lines init [''1. Rome: Old town''] =
      Inr \<lparr>ideas = [], current_idea = Some ?rome\<rparr>"
    by code_simp
  with a have "st0 = \<lparr>ideas = [], current_idea = Some ?rome\<rparr>" by simp
  then have f: "flush st0 = [?rome]" by (simp add: flush_def)
  have "process_lines \<lparr>ideas = [?rome], current_idea = None\<rparr> [''3. Oslo: Fjords''] =
      Inr \<lparr>ideas = [?rome], current_idea = Some ?oslo\<rparr>"
    by code_simp
  with b f have "st2 = \<lparr>ideas = [?rome], current_idea = Some ?oslo\<rparr>" by simp
  then have "flush st2 = [?rome, ?oslo]" by (simp add: flush_def)
  with c show ?thesis by simp
qed

end
